theory Spec2Isabelle
  imports Main
begin

section \<open>Strings\<close>

text \<open>
  A source string is a sequence of UTF-16 code units.  The model takes the code units
  below 256, one \<^typ>\<open>char\<close> each, so that \<^typ>\<open>string\<close> is the source's string type on
  that alphabet.  On it the white space of \<open>String.prototype.trim\<close> and of the regular
  expression class \<open>\s\<close> is TAB, LF, VT, FF, CR, SP and NBSP, and
  \<open>String.prototype.toLowerCase\<close> maps \<open>A-Z\<close> and the upper-case letters of
  \<open>U+00C0..U+00DE\<close> (not the multiplication sign \<open>U+00D7\<close>) to the code unit 32 above.
\<close>

definition isWhiteSpace :: "char \<Rightarrow> bool" where
  "isWhiteSpace c =
     (c \<in> set [CHR 0x09, CHR 0x0A, CHR 0x0B, CHR 0x0C, CHR 0x0D, CHR 0x20, CHR 0xA0])"

definition toLowerChar :: "char \<Rightarrow> char" where
  "toLowerChar c =
     (let n = of_char c :: nat
      in if (65 \<le> n \<and> n \<le> 90) \<or> (192 \<le> n \<and> n \<le> 222 \<and> n \<noteq> 215)
         then char_of (n + 32) else c)"

definition toLowerCase :: "string \<Rightarrow> string" where
  "toLowerCase s = map toLowerChar s"

definition trim :: "string \<Rightarrow> string" where
  "trim s = rev (dropWhile isWhiteSpace (rev (dropWhile isWhiteSpace s)))"

definition startsWith :: "string \<Rightarrow> string \<Rightarrow> bool" where
  "startsWith s p = (take (length p) s = p)"

fun str_includes :: "string \<Rightarrow> string \<Rightarrow> bool" where
  "str_includes [] sub = (sub = [])"
| "str_includes (c # cs) sub = (startsWith (c # cs) sub \<or> str_includes cs sub)"

definition slice :: "string \<Rightarrow> nat \<Rightarrow> nat \<Rightarrow> string" where
  "slice s a b = take (b - a) (drop a s)"


section \<open>Regular expressions\<close>

text \<open>
  The regular expressions of the source are kept as syntax trees and run by a
  backtracking matcher in continuation-passing style, the way the ECMAScript
  specification defines matching: a quantifier tries its alternatives in priority
  order (greedy: longest first; lazy: shortest first) and the first one whose
  continuation succeeds wins.  Every quantifier of the source is over a character
  class, so \<open>Greedy P lo hi\<close> stands for \<open>[P]{lo,hi}\<close> (no upper bound when \<open>hi\<close> is
  \<open>None\<close>) and \<open>Lazy P\<close> for \<open>[P]*?\<close>.  \<open>WordEnd\<close> is the assertion \<open>\b\<close> where the source
  uses it, directly after a word character: it holds iff no word character follows.
  A match state is the input still to be read and the captures closed so far.
\<close>

datatype rx =
    Empty
  | Class "char \<Rightarrow> bool"
  | Seq rx rx
  | Alt rx rx
  | Greedy "char \<Rightarrow> bool" nat "nat option"
  | Lazy "char \<Rightarrow> bool"
  | Group rx
  | LookAhead rx
  | EndOfInput
  | WordEnd

type_synonym mstate = "string \<times> string list"
type_synonym cont = "mstate \<Rightarrow> mstate option"

fun greedy :: "(char \<Rightarrow> bool) \<Rightarrow> nat \<Rightarrow> nat option \<Rightarrow> cont \<Rightarrow> mstate \<Rightarrow> mstate option" where
  "greedy P lo hi k ([], caps) = (if lo = 0 then k ([], caps) else None)"
| "greedy P lo hi k (c # cs, caps) =
    (if P c \<and> hi \<noteq> Some 0 then
       (case greedy P (lo - 1) (map_option (\<lambda>h. h - 1) hi) k (cs, caps) of
          Some r \<Rightarrow> Some r
        | None \<Rightarrow> if lo = 0 then k (c # cs, caps) else None)
     else if lo = 0 then k (c # cs, caps) else None)"

fun lazy :: "(char \<Rightarrow> bool) \<Rightarrow> cont \<Rightarrow> mstate \<Rightarrow> mstate option" where
  "lazy P k ([], caps) = k ([], caps)"
| "lazy P k (c # cs, caps) =
    (case k (c # cs, caps) of
       Some r \<Rightarrow> Some r
     | None \<Rightarrow> if P c then lazy P k (cs, caps) else None)"

definition isWordChar :: "char \<Rightarrow> bool" where
  "isWordChar c =
     (let n = of_char c :: nat
      in (48 \<le> n \<and> n \<le> 57) \<or> (65 \<le> n \<and> n \<le> 90) \<or> n = 95 \<or> (97 \<le> n \<and> n \<le> 122))"

primrec mtch :: "rx \<Rightarrow> cont \<Rightarrow> mstate \<Rightarrow> mstate option" where
  "mtch Empty k st = k st"
| "mtch (Class P) k st =
    (case fst st of [] \<Rightarrow> None | c # cs \<Rightarrow> if P c then k (cs, snd st) else None)"
| "mtch (Seq a b) k st = mtch a (mtch b k) st"
| "mtch (Alt a b) k st = (case mtch a k st of Some r \<Rightarrow> Some r | None \<Rightarrow> mtch b k st)"
| "mtch (Greedy P lo hi) k st = greedy P lo hi k st"
| "mtch (Lazy P) k st = lazy P k st"
| "mtch (Group a) k st =
    mtch a (\<lambda>st'. k (fst st', snd st' @ [take (length (fst st) - length (fst st')) (fst st)])) st"
| "mtch (LookAhead a) k st = (case mtch a Some st of Some _ \<Rightarrow> k st | None \<Rightarrow> None)"
| "mtch EndOfInput k st = (if fst st = [] then k st else None)"
| "mtch WordEnd k st =
    (case fst st of [] \<Rightarrow> k st | c # cs \<Rightarrow> if isWordChar c then None else k st)"

text \<open>
  Under the flag \<open>i\<close> (without \<open>u\<close>) two code units match when \<open>Canonicalize\<close> gives the
  same code unit: the upper-case mapping, except that a code unit from 128 on is never
  mapped below 128 and that a mapping to several code units is dropped (sharp s).
  The result can lie beyond 255 (y with diaeresis, micro sign), hence a number.
\<close>

definition canonicalize :: "char \<Rightarrow> nat" where
  "canonicalize c =
     (let n = of_char c :: nat
      in if (97 \<le> n \<and> n \<le> 122) \<or> (224 \<le> n \<and> n \<le> 254 \<and> n \<noteq> 247) then n - 32
         else if n = 255 then 376 else if n = 181 then 924 else n)"

definition chr :: "char \<Rightarrow> rx" where
  "chr c = Class (\<lambda>x. x = c)"

definition chr_i :: "char \<Rightarrow> rx" where
  "chr_i c = Class (\<lambda>x. canonicalize x = canonicalize c)"

definition lit :: "string \<Rightarrow> rx" where
  "lit s = foldr (\<lambda>c. Seq (chr c)) s Empty"

definition lit_i :: "string \<Rightarrow> rx" where
  "lit_i s = foldr (\<lambda>c. Seq (chr_i c)) s Empty"

definition seq :: "rx list \<Rightarrow> rx" where
  "seq rs = foldr Seq rs Empty"

text \<open>
  \<open>match_at r s\<close> tries \<open>r\<close> at the head of \<open>s\<close>, the input from the current index to its
  end: the length of the match and its captures.  No expression of the source looks
  behind the current index, so the text before it plays no part.  \<open>search\<close> is the scan
  of \<open>RegExpBuiltinExec\<close>: the first index from \<open>i\<close> on where the expression matches.
\<close>

definition match_at :: "rx \<Rightarrow> string \<Rightarrow> (nat \<times> string list) option" where
  "match_at r s =
     (case mtch r Some (s, []) of
        None \<Rightarrow> None
      | Some (rest, caps) \<Rightarrow> Some (length s - length rest, caps))"

fun search :: "rx \<Rightarrow> nat \<Rightarrow> string \<Rightarrow> (nat \<times> nat \<times> string list) option" where
  "search r i [] =
     (case match_at r [] of None \<Rightarrow> None | Some (n, caps) \<Rightarrow> Some (i, n, caps))"
| "search r i (c # cs) =
     (case match_at r (c # cs) of
        None \<Rightarrow> search r (Suc i) cs
      | Some (n, caps) \<Rightarrow> Some (i, n, caps))"

text \<open>
  \<open>RegExp.prototype.exec\<close> and \<open>test\<close> on an expression with the flag \<open>g\<close> start at the
  object's \<open>lastIndex\<close> and leave it at the end of the match, or at 0 when there is none.
  The result of \<open>regexp_exec\<close> is the index and the matched text with the new \<open>lastIndex\<close>.
\<close>

definition regexp_exec :: "rx \<Rightarrow> nat \<Rightarrow> string \<Rightarrow> (nat \<times> string) option \<times> nat" where
  "regexp_exec r lastIndex s =
     (if lastIndex > length s then (None, 0)
      else case search r lastIndex (drop lastIndex s) of
             None \<Rightarrow> (None, 0)
           | Some (i, n, caps) \<Rightarrow> (Some (i, slice s i (i + n)), i + n))"

definition regexp_test :: "rx \<Rightarrow> nat \<Rightarrow> string \<Rightarrow> bool \<times> nat" where
  "regexp_test r lastIndex s =
     (case regexp_exec r lastIndex s of (m, lastIndex') \<Rightarrow> (m \<noteq> None, lastIndex'))"

text \<open>
  \<open>String.prototype.replace\<close> with a replacer function.  With the flag \<open>g\<close> every match
  from index 0 on is replaced, left to right and without overlap (after an empty match
  the scan moves on by one code unit); the expression's \<open>lastIndex\<close> is 0 afterwards.
  Without the flag only the first match is replaced.
\<close>

fun replace_all :: "rx \<Rightarrow> (string \<Rightarrow> string list \<Rightarrow> string) \<Rightarrow> string \<Rightarrow> string" where
  "replace_all r f [] = (case match_at r [] of None \<Rightarrow> [] | Some (n, caps) \<Rightarrow> f [] caps)"
| "replace_all r f (c # cs) =
     (case match_at r (c # cs) of
        None \<Rightarrow> c # replace_all r f cs
      | Some (0, caps) \<Rightarrow> f [] caps @ c # replace_all r f cs
      | Some (Suc n, caps) \<Rightarrow> f (take (Suc n) (c # cs)) caps @ replace_all r f (drop n cs))"

definition replace_first :: "rx \<Rightarrow> (string \<Rightarrow> string list \<Rightarrow> string) \<Rightarrow> string \<Rightarrow> string" where
  "replace_first r f s =
     (case search r 0 s of
        None \<Rightarrow> s
      | Some (i, n, caps) \<Rightarrow> take i s @ f (slice s i (i + n)) caps @ drop (i + n) s)"


section \<open>The expressions of \<open>render-links.pipe.ts\<close>\<close>

text \<open>\<^verbatim>\<open>/(?:(?:https?|file):\/\/\S{1,2000}(?=\s|$)|www\.\S{1,2000}(?=\s|$))/gi\<close>\<close>

definition URL_REGEX :: rx where
  "URL_REGEX = Alt
     (seq [Alt (Seq (lit_i ''http'') (Greedy (\<lambda>x. canonicalize x = canonicalize (CHR ''s'')) 0 (Some 1)))
               (lit_i ''file''),
           lit_i ''://'',
           Greedy (\<lambda>x. \<not> isWhiteSpace x) 1 (Some 2000),
           LookAhead (Alt (Class isWhiteSpace) EndOfInput)])
     (seq [lit_i ''www.'',
           Greedy (\<lambda>x. \<not> isWhiteSpace x) 1 (Some 2000),
           LookAhead (Alt (Class isWhiteSpace) EndOfInput)])"

text \<open>\<^verbatim>\<open>/\[([^\]]+)\]\(([^)]+)\)/g\<close>\<close>

definition MARKDOWN_LINK_REGEX :: rx where
  "MARKDOWN_LINK_REGEX = seq
     [chr (CHR ''[''), Group (Greedy (\<lambda>x. x \<noteq> CHR '']'') 1 None), chr (CHR '']''),
      chr (CHR ''(''), Group (Greedy (\<lambda>x. x \<noteq> CHR '')'') 1 None), chr (CHR '')'')]"

text \<open>\<^verbatim>\<open>/<a\b[^>]*>.*?<\/a>/gs\<close> (with the flag \<open>s\<close> the dot is every code unit)\<close>

definition anchorRegex :: rx where
  "anchorRegex = seq
     [lit ''<a'', WordEnd, Greedy (\<lambda>x. x \<noteq> CHR ''>'') 0 None, chr (CHR ''>''),
      Lazy (\<lambda>x. True), lit ''</a>'']"

text \<open>\<^verbatim>\<open>/[.,;!?]+$/\<close>\<close>

definition trailingPunctuation :: rx where
  "trailingPunctuation = seq [Greedy (\<lambda>x. x \<in> set ''.,;!?'') 1 None, EndOfInput]"

text \<open>
  \<^verbatim>\<open>/^(?:https?|file):\/\//\<close>: the assertion \<open>^\<close> lets the expression match at index 0
  only, so that \<open>url.match\<close> is the attempt at the head of the string.
\<close>

definition schemePrefix :: rx where
  "schemePrefix = seq
     [Alt (Seq (lit ''http'') (Greedy (\<lambda>x. x = CHR ''s'') 0 (Some 1))) (lit ''file''), lit ''://'']"

text \<open>\<^verbatim>\<open>/&/g\<close>, \<^verbatim>\<open>/</g\<close>, \<^verbatim>\<open>/>/g\<close>, \<^verbatim>\<open>/"/g\<close> are \<open>chr\<close> of the character.\<close>


section \<open>The pipe\<close>

text \<open>
  The two module-level expressions are objects shared by all calls; what a call can
  change in them is \<open>lastIndex\<close>.
\<close>

record module_state =
  URL_REGEX_lastIndex :: nat
  MARKDOWN_LINK_REGEX_lastIndex :: nat

text \<open>
  The result is the empty string itself or a value wrapped by the sanitizer's
  \<open>bypassSecurityTrustHtml\<close>; \<open>html_of\<close> is the markup either way.
\<close>

datatype SafeHtml = PlainString string | TrustedHtml string

definition bypassSecurityTrustHtml :: "string \<Rightarrow> SafeHtml" where
  "bypassSecurityTrustHtml s = TrustedHtml s"

fun html_of :: "SafeHtml \<Rightarrow> string" where
  "html_of (PlainString s) = s"
| "html_of (TrustedHtml s) = s"

definition escapeHtml :: "string \<Rightarrow> string" where
  "escapeHtml text =
     replace_all (chr (CHR 0x22)) (\<lambda>m caps. ''&quot;'')
       (replace_all (chr (CHR ''>'')) (\<lambda>m caps. ''&gt;'')
         (replace_all (chr (CHR ''<'')) (\<lambda>m caps. ''&lt;'')
           (replace_all (chr (CHR ''&'')) (\<lambda>m caps. ''&amp;'') text)))"

definition isUrlSchemeSafe :: "string \<Rightarrow> bool" where
  "isUrlSchemeSafe url =
     (let lowerUrl = toLowerCase (trim url);
          dangerousSchemes = [''javascript:'', ''data:'', ''vbscript:'']
      in if list_ex (\<lambda>scheme. startsWith lowerUrl scheme) dangerousSchemes then False
         else if startsWith lowerUrl ''http://'' \<or> startsWith lowerUrl ''https://''
                 \<or> startsWith lowerUrl ''file://'' \<or> startsWith lowerUrl ''//'' then True
         else if \<not> str_includes lowerUrl ''://'' then True
         else False)"

definition normalizeHref :: "string \<Rightarrow> string" where
  "normalizeHref url =
     (if match_at schemePrefix url \<noteq> None then url
      else if startsWith url ''//'' then ''https:'' @ url
      else ''http://'' @ url)"

definition anchorTag :: "string \<Rightarrow> string \<Rightarrow> string" where
  \<open>anchorTag escapedHref escapedLabel =
     ''<a href="'' @ escapedHref @ ''" target="_blank" rel="noopener noreferrer">''
       @ escapedLabel @ ''</a>''\<close>

text \<open>
  The replacer of the markdown step: the captures are the title and the url (a match
  of \<open>MARKDOWN_LINK_REGEX\<close> has these two captures and no others).
\<close>

fun markdownReplacer :: "string \<Rightarrow> string list \<Rightarrow> string" where
  "markdownReplacer m [title, url] =
     (if \<not> isUrlSchemeSafe url then escapeHtml title
      else let href = normalizeHref url;
               escapedHref = escapeHtml href;
               escapedTitle = escapeHtml title
           in anchorTag escapedHref escapedTitle)"
| "markdownReplacer m caps = m"

text \<open>The replacer of the plain-URL step.\<close>

definition urlReplacer :: "string \<Rightarrow> string list \<Rightarrow> string" where
  "urlReplacer url caps =
     (let cleanUrl = replace_first trailingPunctuation (\<lambda>m caps. []) url
      in if \<not> isUrlSchemeSafe cleanUrl then escapeHtml cleanUrl
         else let href = normalizeHref cleanUrl;
                  escapedHref = escapeHtml href;
                  escapedDisplay = escapeHtml cleanUrl
              in anchorTag escapedHref escapedDisplay)"

text \<open>
  The segmentation loop of \<open>transform\<close> (lines 66 to 83): \<open>anchorRegex\<close> is a fresh
  object, so its \<open>lastIndex\<close> starts at 0 and is the loop's \<open>lastIndex\<close> after every
  round.  The loop ends because a match of \<open>anchorRegex\<close> is never empty.
\<close>

record part =
  ptext :: string
  isAnchor :: bool

lemma search_bounds:
  "search r i s = Some (j, n, caps) \<Longrightarrow>
     i \<le> j \<and> j - i \<le> length s \<and> match_at r (drop (j - i) s) = Some (n, caps)"
proof (induction s arbitrary: i)
  case Nil
  then show ?case by (auto split: option.splits)
next
  case (Cons c cs)
  show ?case
  proof (cases "match_at r (c # cs)")
    case None
    with Cons.prems have "search r (Suc i) cs = Some (j, n, caps)" by simp
    from Cons.IH [OF this] have "Suc i \<le> j" "j - Suc i \<le> length cs"
      "match_at r (drop (j - Suc i) cs) = Some (n, caps)" by auto
    moreover from \<open>Suc i \<le> j\<close> have "j - i = Suc (j - Suc i)" by arith
    ultimately show ?thesis by simp
  next
    case (Some a)
    with Cons.prems show ?thesis by (auto split: prod.splits)
  qed
qed

lemma match_at_length: "match_at r s = Some (n, caps) \<Longrightarrow> n \<le> length s"
  by (auto simp: match_at_def split: option.splits)

text \<open>What a continuation is given is never longer than what the matcher was given.\<close>

lemma greedy_mono:
  assumes "\<And>st. length (fst st) \<le> m \<Longrightarrow> k st = Some x \<Longrightarrow> Q"
  shows "length s \<le> m \<Longrightarrow> greedy P lo hi k (s, caps) = Some x \<Longrightarrow> Q"
proof (induction s arbitrary: lo hi)
  case Nil
  then show ?case using assms [of "([], caps)"] by (auto split: if_splits)
next
  case (Cons c cs)
  show ?case
  proof (cases "greedy P (lo - 1) (map_option (\<lambda>h. h - 1) hi) k (cs, caps)")
    case None
    with Cons.prems have "k (c # cs, caps) = Some x" by (auto split: if_splits)
    with Cons.prems(1) assms [of "(c # cs, caps)"] show ?thesis by simp
  next
    case (Some y)
    show ?thesis
    proof (cases "P c \<and> hi \<noteq> Some 0")
      case True
      with Some Cons.prems have "greedy P (lo - 1) (map_option (\<lambda>h. h - 1) hi) k (cs, caps) = Some x" by simp
      with Cons.IH Cons.prems(1) show ?thesis by simp
    next
      case False
      with Cons.prems have "k (c # cs, caps) = Some x" by (auto split: if_splits)
      with Cons.prems(1) assms [of "(c # cs, caps)"] show ?thesis by simp
    qed
  qed
qed

lemma lazy_mono:
  assumes "\<And>st. length (fst st) \<le> m \<Longrightarrow> k st = Some x \<Longrightarrow> Q"
  shows "length s \<le> m \<Longrightarrow> lazy P k (s, caps) = Some x \<Longrightarrow> Q"
proof (induction s)
  case Nil
  then show ?case using assms [of "([], caps)"] by auto
next
  case (Cons c cs)
  show ?case
  proof (cases "k (c # cs, caps)")
    case None
    with Cons show ?thesis by (auto split: if_splits)
  next
    case (Some y)
    with Cons.prems assms [of "(c # cs, caps)"] show ?thesis by simp
  qed
qed

lemma mtch_mono:
  "mtch r k st = Some x \<Longrightarrow> length (fst st) \<le> m \<Longrightarrow>
     (\<And>st'. length (fst st') \<le> m \<Longrightarrow> k st' = Some x \<Longrightarrow> Q) \<Longrightarrow> Q"
proof (induction r arbitrary: k st Q)
  case Empty
  from Empty.prems(1) have "k st = Some x" by simp
  from Empty.prems(3) [OF Empty.prems(2) this] show ?case .
next
  case (Class P)
  show ?case
  proof (cases st)
    case (Pair s caps)
    with Class.prems(1) obtain c cs where s: "s = c # cs" and k: "k (cs, caps) = Some x"
      by (auto split: list.splits if_splits)
    from s Pair Class.prems(2) have "length (fst (cs, caps)) \<le> m" by simp
    from Class.prems(3) [OF this k] show ?thesis .
  qed
next
  case (Seq a b)
  from Seq.prems(1) have "mtch a (mtch b k) st = Some x" by simp
  from Seq.IH(1) [OF this Seq.prems(2)] Seq.IH(2) Seq.prems(3) show ?case by blast
next
  case (Alt a b)
  show ?case
  proof (cases "mtch a k st")
    case None
    with Alt.prems(1) have "mtch b k st = Some x" by simp
    from Alt.IH(2) [OF this Alt.prems(2)] Alt.prems(3) show ?thesis by blast
  next
    case (Some y)
    with Alt.prems(1) have "mtch a k st = Some x" by simp
    from Alt.IH(1) [OF this Alt.prems(2)] Alt.prems(3) show ?thesis by blast
  qed
next
  case (Greedy P lo hi)
  then show ?case using greedy_mono [of m k x Q "fst st" P lo hi "snd st"] by simp
next
  case (Lazy P)
  then show ?case using lazy_mono [of m k x Q "fst st" P "snd st"] by simp
next
  case (Group a)
  define k' where "k' = (\<lambda>st'. k (fst st', snd st' @ [take (length (fst st) - length (fst st')) (fst st)]))"
  from Group.prems(1) have "mtch a k' st = Some x" by (simp add: k'_def)
  from this Group.prems(2) show ?case
  proof (rule Group.IH)
    fix st' assume l: "length (fst st') \<le> m" and "k' st' = Some x"
    hence "k (fst st', snd st' @ [take (length (fst st) - length (fst st')) (fst st)]) = Some x"
      by (simp add: k'_def)
    moreover from l have "length (fst (fst st', snd st' @ [take (length (fst st) - length (fst st')) (fst st)])) \<le> m" by simp
    ultimately show Q by (rule Group.prems(3) [rotated])
  qed
next
  case (LookAhead a)
  from LookAhead.prems(1) have "k st = Some x" by (auto split: option.splits)
  from LookAhead.prems(3) [OF LookAhead.prems(2) this] show ?case .
next
  case EndOfInput
  from EndOfInput.prems(1) have "k st = Some x" by (auto split: if_splits)
  from EndOfInput.prems(3) [OF EndOfInput.prems(2) this] show ?case .
next
  case WordEnd
  from WordEnd.prems(1) have "k st = Some x" by (auto split: list.splits if_splits)
  from WordEnd.prems(3) [OF WordEnd.prems(2) this] show ?case .
qed

lemma mtch_shorter:
  assumes "mtch r k st = Some x"
  obtains st' where "length (fst st') \<le> length (fst st)" and "k st' = Some x"
  using mtch_mono [OF assms, of "length (fst st)"] by blast

lemma anchorRegex_nonempty:
  assumes "match_at anchorRegex s = Some (n, caps)"
  shows "0 < n"
proof -
  from assms obtain rest where m: "mtch anchorRegex Some (s, []) = Some (rest, caps)"
    and n: "n = length s - length rest"
    by (auto simp: match_at_def split: option.splits)
  define R where "R = seq [WordEnd, Greedy (\<lambda>x. x \<noteq> CHR ''>'') 0 None, chr (CHR ''>''),
      Lazy (\<lambda>x. True), lit ''</a>'']"
  have a: "anchorRegex = Seq (lit ''<a'') R"
    by (simp add: anchorRegex_def R_def seq_def)
  from m obtain s' where s: "s = CHR ''<'' # CHR ''a'' # s'"
    and m': "mtch R Some (s', []) = Some (rest, caps)"
    by (auto simp: a lit_def chr_def split: list.splits if_splits)
  from m' obtain st' where "length (fst st') \<le> length s'" "Some st' = Some (rest, caps)"
    by (rule mtch_shorter) auto
  with s n show ?thesis by auto
qed

lemma regexp_exec_anchor_advances:
  assumes "regexp_exec anchorRegex lastIndex html = (Some (index, m), lastIndex')"
  shows "lastIndex \<le> index \<and> index < lastIndex' \<and> lastIndex' \<le> length html
         \<and> m = slice html index lastIndex'"
proof -
  from assms obtain n caps where le: "lastIndex \<le> length html"
    and se: "search anchorRegex lastIndex (drop lastIndex html) = Some (index, n, caps)"
    and li: "lastIndex' = index + n" and m: "m = slice html index (index + n)"
    by (auto simp: regexp_exec_def split: if_splits option.splits)
  from search_bounds [OF se] have b: "lastIndex \<le> index" "index - lastIndex \<le> length html - lastIndex"
    "match_at anchorRegex (drop (index - lastIndex) (drop lastIndex html)) = Some (n, caps)"
    by auto
  from b(3) b(1) have ma: "match_at anchorRegex (drop index html) = Some (n, caps)" by simp
  from anchorRegex_nonempty [OF ma] match_at_length [OF ma] b li m le
  show ?thesis by auto
qed

function split_anchors :: "string \<Rightarrow> nat \<Rightarrow> part list" where
  "split_anchors html lastIndex =
     (case regexp_exec anchorRegex lastIndex html of
        (None, lastIndex') \<Rightarrow>
          if lastIndex < length html
          then [\<lparr>ptext = drop lastIndex html, isAnchor = False\<rparr>] else []
      | (Some (index, m), lastIndex') \<Rightarrow>
          (if index > lastIndex
           then [\<lparr>ptext = slice html lastIndex index, isAnchor = False\<rparr>] else [])
          @ \<lparr>ptext = m, isAnchor = True\<rparr> # split_anchors html lastIndex')"
  by pat_completeness auto
termination
  apply (relation "measure (\<lambda>(html, lastIndex). length html - lastIndex)")
   apply simp
  apply (auto dest!: regexp_exec_anchor_advances [OF sym])
  done

declare split_anchors.simps [simp del]

text \<open>
  The \<open>map\<close> over the parts (lines 85 to 102): an anchor part is returned as it is; for
  another part \<open>URL_REGEX.lastIndex\<close> is set to 0 and every match of \<open>URL_REGEX\<close> in it
  is replaced, which leaves \<open>lastIndex\<close> at 0.
\<close>

fun map_parts :: "part list \<Rightarrow> module_state \<Rightarrow> string list \<times> module_state" where
  "map_parts [] st = ([], st)"
| "map_parts (p # ps) st =
     (if isAnchor p then
        (case map_parts ps st of (rs, st') \<Rightarrow> (ptext p # rs, st'))
      else
        let st1 = st\<lparr>URL_REGEX_lastIndex := 0\<rparr>;
            r = replace_all URL_REGEX urlReplacer (ptext p);
            st2 = st1\<lparr>URL_REGEX_lastIndex := 0\<rparr>
        in case map_parts ps st2 of (rs, st') \<Rightarrow> (r # rs, st'))"

text \<open>Lines 46 to 60: the markdown step, with \<open>hasMarkdown\<close> and the new \<open>htmlWithLinks\<close>.\<close>

definition markdownStep :: "string \<Rightarrow> module_state \<Rightarrow> (bool \<times> string) \<times> module_state" where
  "markdownStep text st =
     (let st1 = st\<lparr>MARKDOWN_LINK_REGEX_lastIndex := 0\<rparr>;
          (hasMarkdown, lastIndex') =
             regexp_test MARKDOWN_LINK_REGEX (MARKDOWN_LINK_REGEX_lastIndex st1) text;
          st2 = st1\<lparr>MARKDOWN_LINK_REGEX_lastIndex := lastIndex'\<rparr>
      in if hasMarkdown then
           let st3 = st2\<lparr>MARKDOWN_LINK_REGEX_lastIndex := 0\<rparr>;
               htmlWithLinks = replace_all MARKDOWN_LINK_REGEX markdownReplacer text;
               st4 = st3\<lparr>MARKDOWN_LINK_REGEX_lastIndex := 0\<rparr>
           in ((hasMarkdown, htmlWithLinks), st4)
         else ((hasMarkdown, text), st2))"

text \<open>Lines 62 to 103: the plain-URL step, with \<open>hasUrls\<close> and the new \<open>htmlWithLinks\<close>.\<close>

definition urlStep :: "string \<Rightarrow> module_state \<Rightarrow> (bool \<times> string) \<times> module_state" where
  "urlStep htmlWithLinks st =
     (let st1 = st\<lparr>URL_REGEX_lastIndex := 0\<rparr>;
          (hasUrls, lastIndex') = regexp_test URL_REGEX (URL_REGEX_lastIndex st1) htmlWithLinks;
          st2 = st1\<lparr>URL_REGEX_lastIndex := lastIndex'\<rparr>
      in if hasUrls then
           let parts = split_anchors htmlWithLinks 0;
               (rs, st3) = map_parts parts st2
           in ((hasUrls, concat rs), st3)
         else ((hasUrls, htmlWithLinks), st2))"

definition transform :: "string \<Rightarrow> bool \<Rightarrow> module_state \<Rightarrow> SafeHtml \<times> module_state" where
  "transform text renderLinks st =
     (if text = [] then (PlainString [], st)
      else if \<not> renderLinks then (bypassSecurityTrustHtml (escapeHtml text), st)
      else
        let hasUrlHint = str_includes text ''://'' \<or> str_includes text ''www.'';
            hasMarkdownHint = str_includes text ''](''
        in if \<not> hasUrlHint \<and> \<not> hasMarkdownHint
           then (bypassSecurityTrustHtml (escapeHtml text), st)
           else
             let ((hasMarkdown, htmlWithLinks), st1) = markdownStep text st;
                 ((hasUrls, htmlWithLinks'), st2) = urlStep htmlWithLinks st1
             in if \<not> hasMarkdown \<and> \<not> hasUrls
                then (bypassSecurityTrustHtml (escapeHtml text), st2)
                else (bypassSecurityTrustHtml htmlWithLinks', st2))"

text \<open>The markup of a call of the pipe.\<close>

definition render :: "string \<Rightarrow> bool \<Rightarrow> module_state \<Rightarrow> string" where
  "render text renderLinks st = html_of (fst (transform text renderLinks st))"


section \<open>The escaper\<close>

lemma match_at_chr:
  "match_at (chr c) s =
     (case s of [] \<Rightarrow> None | x # xs \<Rightarrow> if x = c then Some (Suc 0, []) else None)"
  by (simp add: match_at_def chr_def split: list.splits)

lemma replace_all_chr:
  "replace_all (chr c) (\<lambda>m caps. r) s = concat (map (\<lambda>x. if x = c then r else [x]) s)"
  by (induction s) (simp_all add: match_at_chr)

lemma escapeHtml_Nil: "escapeHtml [] = []"
  unfolding escapeHtml_def replace_all_chr by simp

lemma escapeHtml_Cons:
  "escapeHtml (c # cs) =
     (if c = CHR ''&'' then ''&amp;''
      else if c = CHR ''<'' then ''&lt;''
      else if c = CHR ''>'' then ''&gt;''
      else if c = CHR 0x22 then ''&quot;''
      else [c]) @ escapeHtml cs"
  unfolding escapeHtml_def replace_all_chr by simp

lemma escapeHtml_append: "escapeHtml (a @ b) = escapeHtml a @ escapeHtml b"
  by (induction a) (simp_all add: escapeHtml_Nil escapeHtml_Cons)

text \<open>
  Claim C8, as amended.  \<open>escapeHtml\<close> is defined on every string and works character by
  character: \<open>&\<close> becomes \<open>&amp;\<close>, \<open><\<close> becomes \<open>&lt;\<close>, \<open>>\<close> becomes \<open>&gt;\<close>, the double
  quote becomes \<open>&quot;\<close>, and every other character, the apostrophe among them, is
  kept.  The four passes of the source run one after the other with the ampersand
  first, so the ampersand of an entity a pass has written is not escaped again: the
  result is that of one simultaneous pass.  These are four characters, not five.
\<close>

theorem escapeHtml_four_characters:
  "escapeHtml [] = [] \<and>
   escapeHtml (c # cs) =
     (if c = CHR ''&'' then ''&amp;''
      else if c = CHR ''<'' then ''&lt;''
      else if c = CHR ''>'' then ''&gt;''
      else if c = CHR 0x22 then ''&quot;''
      else [c]) @ escapeHtml cs"
  by (simp add: escapeHtml_Nil escapeHtml_Cons)

theorem escapeHtml_four_characters_witness:
  "escapeHtml [CHR ''&'', CHR ''<'', CHR 0x27, CHR ''a''] = ''&amp;&lt;'' @ [CHR 0x27, CHR ''a'']"
  using escapeHtml_four_characters [of "CHR ''&''" "[CHR ''<'', CHR 0x27, CHR ''a'']"]
    escapeHtml_four_characters [of "CHR ''<''" "[CHR 0x27, CHR ''a'']"]
    escapeHtml_four_characters [of "CHR 0x27" "[CHR ''a'']"]
    escapeHtml_four_characters [of "CHR ''a''" "[]"]
  by simp

text \<open>
  Claim C8 as stated fails: the apostrophe, the fifth character that is significant
  in HTML, goes through \<open>escapeHtml\<close> unescaped.
\<close>

theorem escapeHtml_apostrophe_counterexample:
  "escapeHtml [CHR 0x27] = [CHR 0x27]"
  by (simp add: escapeHtml_Nil escapeHtml_Cons)


section \<open>The scheme classifier\<close>

lemma startsWith_simps [simp]:
  "startsWith s [] = True"
  "startsWith [] (p # ps) = False"
  "startsWith (x # xs) (p # ps) = (x = p \<and> startsWith xs ps)"
  by (auto simp: startsWith_def)

text \<open>
  Claim C2.  The classifier is the decision list of the specification, read in its
  order on the candidate after \<open>trim\<close> and \<open>toLowerCase\<close>: a candidate that starts with
  \<open>javascript:\<close>, \<open>data:\<close> or \<open>vbscript:\<close> is unsafe; one that starts with \<open>http://\<close>,
  \<open>https://\<close>, \<open>file://\<close> or \<open>//\<close> is safe; of the others, one without \<open>://\<close> is safe
  and one with \<open>://\<close> is unsafe.
\<close>

theorem isUrlSchemeSafe_decision:
  assumes "l = toLowerCase (trim url)"
  shows "(startsWith l ''javascript:'' \<or> startsWith l ''data:'' \<or> startsWith l ''vbscript:''
            \<longrightarrow> \<not> isUrlSchemeSafe url)
       \<and> (startsWith l ''http://'' \<or> startsWith l ''https://'' \<or> startsWith l ''file://''
            \<or> startsWith l ''//'' \<longrightarrow> isUrlSchemeSafe url)
       \<and> (\<not> startsWith l ''javascript:'' \<and> \<not> startsWith l ''data:'' \<and> \<not> startsWith l ''vbscript:''
            \<and> \<not> str_includes l ''://'' \<longrightarrow> isUrlSchemeSafe url)
       \<and> (\<not> startsWith l ''javascript:'' \<and> \<not> startsWith l ''data:'' \<and> \<not> startsWith l ''vbscript:''
            \<and> \<not> startsWith l ''http://'' \<and> \<not> startsWith l ''https://'' \<and> \<not> startsWith l ''file://''
            \<and> \<not> startsWith l ''//'' \<and> str_includes l ''://'' \<longrightarrow> \<not> isUrlSchemeSafe url)"
proof -
  have safe: "\<not> (startsWith l ''javascript:'' \<or> startsWith l ''data:'' \<or> startsWith l ''vbscript:'')"
    if "startsWith l ''http://'' \<or> startsWith l ''https://'' \<or> startsWith l ''file://''
        \<or> startsWith l ''//''"
    using that by (cases l) auto
  show ?thesis
    using safe by (auto simp: isUrlSchemeSafe_def assms [symmetric] Let_def)
qed

theorem isUrlSchemeSafe_decision_witness:
  "\<not> isUrlSchemeSafe ''  JavaScript:alert(1)'' \<and> isUrlSchemeSafe ''HTTPS://a.com ''
   \<and> isUrlSchemeSafe ''www.example.com'' \<and> \<not> isUrlSchemeSafe ''ftp://a.com''"
proof -
  have 1: "''javascript:alert(1)'' = toLowerCase (trim ''  JavaScript:alert(1)'')" by code_simp
  have 2: "''https://a.com'' = toLowerCase (trim ''HTTPS://a.com '')" by code_simp
  have 3: "''www.example.com'' = toLowerCase (trim ''www.example.com'')" by code_simp
  have 4: "''ftp://a.com'' = toLowerCase (trim ''ftp://a.com'')" by code_simp
  from isUrlSchemeSafe_decision [OF 1] isUrlSchemeSafe_decision [OF 2]
    isUrlSchemeSafe_decision [OF 3] isUrlSchemeSafe_decision [OF 4]
  show ?thesis by simp
qed


section \<open>The output of a call does not depend on the module state\<close>

text \<open>
  The state in which the module is loaded: a new expression object has \<open>lastIndex\<close> 0.
\<close>

definition initial_state :: module_state where
  "initial_state = \<lparr>URL_REGEX_lastIndex = 0, MARKDOWN_LINK_REGEX_lastIndex = 0\<rparr>"

text \<open>
  The state matters to a single use of a shared expression: \<open>test\<close> starts at
  \<open>lastIndex\<close>, and from an index behind the only URL it finds nothing.
\<close>

lemma regexp_test_depends_on_lastIndex:
  "regexp_test URL_REGEX 0 ''http://a.com'' = (True, 12) \<and>
   regexp_test URL_REGEX 8 ''http://a.com'' = (False, 0)"
  by code_simp

lemma markdownStep_fst:
  "fst (markdownStep text st) =
     (let hasMarkdown = fst (regexp_test MARKDOWN_LINK_REGEX 0 text)
      in (hasMarkdown,
          if hasMarkdown then replace_all MARKDOWN_LINK_REGEX markdownReplacer text else text))"
  by (simp add: markdownStep_def Let_def split: prod.splits)

lemma map_parts_fst:
  "fst (map_parts ps st) =
     map (\<lambda>p. if isAnchor p then ptext p else replace_all URL_REGEX urlReplacer (ptext p)) ps"
  by (induction ps arbitrary: st) (simp_all add: Let_def split_beta)

lemma urlStep_fst:
  "fst (urlStep html st) =
     (let hasUrls = fst (regexp_test URL_REGEX 0 html)
      in (hasUrls,
          if hasUrls
          then concat (map (\<lambda>p. if isAnchor p then ptext p
                                 else replace_all URL_REGEX urlReplacer (ptext p))
                         (split_anchors html 0))
          else html))"
  by (simp add: urlStep_def Let_def split_beta map_parts_fst)

lemma transform_fst:
  "fst (transform text renderLinks st) =
     (if text = [] then PlainString []
      else if \<not> renderLinks then bypassSecurityTrustHtml (escapeHtml text)
      else if \<not> (str_includes text ''://'' \<or> str_includes text ''www.'')
              \<and> \<not> str_includes text ''](''
      then bypassSecurityTrustHtml (escapeHtml text)
      else let hasMarkdown = fst (regexp_test MARKDOWN_LINK_REGEX 0 text);
               htmlWithLinks =
                 (if hasMarkdown then replace_all MARKDOWN_LINK_REGEX markdownReplacer text
                  else text);
               hasUrls = fst (regexp_test URL_REGEX 0 htmlWithLinks);
               htmlWithLinks' =
                 (if hasUrls
                  then concat (map (\<lambda>p. if isAnchor p then ptext p
                                 else replace_all URL_REGEX urlReplacer (ptext p))
                         (split_anchors htmlWithLinks 0))
                  else htmlWithLinks)
           in if \<not> hasMarkdown \<and> \<not> hasUrls then bypassSecurityTrustHtml (escapeHtml text)
              else bypassSecurityTrustHtml htmlWithLinks')"
  by (simp add: transform_def Let_def split_beta markdownStep_fst urlStep_fst)

lemma render_any_state: "render text renderLinks st = render text renderLinks st'"
  by (simp only: render_def transform_fst)

text \<open>
  Claim C10.  The markup of a call is the same from every state of the two shared
  expressions, whatever their \<open>lastIndex\<close>: each use of one of them comes after an
  assignment of 0 to its \<open>lastIndex\<close> or is a \<open>replace\<close>, which starts from 0 itself.  So
  a second call with the same arguments, run from the state the first call has left,
  returns what the first call returned.
\<close>

theorem transform_deterministic:
  "fst (transform text renderLinks st) = fst (transform text renderLinks st') \<and>
   fst (transform text renderLinks (snd (transform text renderLinks st)))
     = fst (transform text renderLinks st)"
  by (simp only: transform_fst)

theorem transform_deterministic_witness:
  "fst (transform ''See http://a.com'' True
          \<lparr>URL_REGEX_lastIndex = 8, MARKDOWN_LINK_REGEX_lastIndex = 3\<rparr>)
     = fst (transform ''See http://a.com'' True initial_state)"
  by (rule conjunct1 [OF transform_deterministic])



section \<open>What the pipe renders\<close>

text \<open>
  Claim C1 fails on the code.  When a link is rendered, the text around the match is
  copied into the markup as it is: the replacer escapes the match only, and the result
  of \<open>replace\<close> is trusted as a whole.  A tag typed before a URL reaches the markup
  unescaped, against the pipe's own description (all user-supplied content is escaped).
\<close>

theorem render_text_around_link_unescaped:
  \<open>render ''<b> http://a.com'' True st =
     ''<b> <a href="http://a.com" target="_blank" rel="noopener noreferrer">http://a.com</a>''\<close>
  by (subst render_any_state [of _ _ _ initial_state]) code_simp

text \<open>
  Claim C3 fails on the code.  The replacer of the plain-URL step returns the anchor of
  the trimmed URL for the whole match, so the punctuation it has cut off is lost: no
  full stop follows the anchor.
\<close>

theorem render_trailing_punctuation_lost:
  \<open>render ''See http://a.com/x.'' True st =
     ''See <a href="http://a.com/x" target="_blank" rel="noopener noreferrer">http://a.com/x</a>''\<close>
  by (subst render_any_state [of _ _ _ initial_state]) code_simp

text \<open>
  Claim C5 fails on the code.  The classifier accepts a scheme in any case, but the
  expression of \<open>normalizeHref\<close> has no flag \<open>i\<close>: an upper-case scheme is not recognized
  and \<open>http://\<close> is put in front of it.
\<close>

theorem normalizeHref_upper_case_scheme:
  "isUrlSchemeSafe ''HTTP://example.com'' \<and>
   normalizeHref ''HTTP://example.com'' = ''http://HTTP://example.com''"
  by code_simp


section \<open>The segmentation\<close>








section \<open>The plain-URL detector\<close>

text \<open>
  The plain-URL detector in the words of the specification (section 4.5): a token is
  one of the prefixes \<open>http://\<close>, \<open>https://\<close>, \<open>file://\<close>, \<open>www.\<close>, in any case, followed by
  the run of non-whitespace characters up to the next white space or the end of the
  input, when that run has 1 to 2000 characters; \<open>spec_urlToken\<close> is its length.
\<close>

definition ci_startsWith :: "string \<Rightarrow> string \<Rightarrow> bool" where
  "ci_startsWith s p = (map canonicalize (take (length p) s) = map canonicalize p)"


lemma ci_startsWith_simps [simp]:
  "ci_startsWith s [] = True"
  "ci_startsWith [] (p # ps) = False"
  "ci_startsWith (x # xs) (p # ps) = (canonicalize x = canonicalize p \<and> ci_startsWith xs ps)"
  by (auto simp: ci_startsWith_def)


lemma mtch_lookahead_end:
  "mtch (LookAhead (Alt (Class isWhiteSpace) EndOfInput)) k (s, caps) =
     (if s = [] \<or> isWhiteSpace (hd s) then k (s, caps) else None)"
  by (cases s) simp_all





















section \<open>The markdown step\<close>


















section \<open>The title service of \<open>url-metadata.service.ts\<close>\<close>

text \<open>\<^verbatim>\<open>/<title[^>]*>([^<]+)<\/title>/i\<close>\<close>

definition titleTag :: rx where
  "titleTag = seq
     [lit_i ''<title'', Greedy (\<lambda>x. x \<noteq> CHR ''>'') 0 None, chr_i (CHR ''>''),
      Group (Greedy (\<lambda>x. x \<noteq> CHR ''<'') 1 None), lit_i ''</title>'']"

definition isQuote :: "char \<Rightarrow> bool" where
  "isQuote x = (x = CHR 0x22 \<or> x = CHR 0x27)"

text \<open>\<^verbatim>\<open>/<meta[^>]*property=["']og:title["'][^>]*content=["']([^"']+)["']/i\<close>\<close>

definition ogTitle :: rx where
  "ogTitle = seq
     [lit_i ''<meta'', Greedy (\<lambda>x. x \<noteq> CHR ''>'') 0 None, lit_i ''property='', Class isQuote,
      lit_i ''og:title'', Class isQuote, Greedy (\<lambda>x. x \<noteq> CHR ''>'') 0 None,
      lit_i ''content='', Class isQuote, Group (Greedy (\<lambda>x. \<not> isQuote x) 1 None),
      Class isQuote]"

text \<open>\<^verbatim>\<open>/<meta[^>]*content=["']([^"']+)["'][^>]*property=["']og:title["']/i\<close>\<close>

definition ogTitleReversed :: rx where
  "ogTitleReversed = seq
     [lit_i ''<meta'', Greedy (\<lambda>x. x \<noteq> CHR ''>'') 0 None, lit_i ''content='', Class isQuote,
      Group (Greedy (\<lambda>x. \<not> isQuote x) 1 None), Class isQuote,
      Greedy (\<lambda>x. x \<noteq> CHR ''>'') 0 None, lit_i ''property='', Class isQuote,
      lit_i ''og:title'', Class isQuote]"

text \<open>
  \<open>String.prototype.match\<close> with an expression without the flag \<open>g\<close>: the captures of
  the first match, if there is one.
\<close>

definition str_match :: "rx \<Rightarrow> string \<Rightarrow> string list option" where
  "str_match r s = (case search r 0 s of None \<Rightarrow> None | Some (i, n, caps) \<Rightarrow> Some caps)"

text \<open>A match with a first capture that is not the empty string (\<open>m && m[1]\<close>).\<close>

fun firstCapture :: "string list option \<Rightarrow> string option" where
  "firstCapture (Some (c # caps)) = (if c = [] then None else Some c)"
| "firstCapture m = None"

definition extractTitle :: "string \<Rightarrow> string option" where
  "extractTitle html =
     (case firstCapture (str_match titleTag html) of
        Some t \<Rightarrow> Some (trim t)
      | None \<Rightarrow>
          (case firstCapture (str_match ogTitle html) of
             Some t \<Rightarrow> Some (trim t)
           | None \<Rightarrow>
               (case firstCapture (str_match ogTitleReversed html) of
                  Some t \<Rightarrow> Some (trim t)
                | None \<Rightarrow> None)))"

text \<open>
  A promise is modelled by what becomes of it: it is fulfilled with a value, it is
  rejected, or it never settles.  What the service awaits comes from outside: the
  bridge to the main process, when there is one, and the HTTP client.  The call of the
  bridge throws at once, or returns a promise that rejects, never settles, or resolves
  to a value that is absent (\<open>None\<close>: reading \<open>result.title\<close> throws) or an object whose
  \<open>title\<close> may be absent.  The request of the client delivers a body, fails, runs into
  the timeout of 5000 ms, or completes without a value; the bridge has no timeout.
\<close>

datatype 'a promise = Fulfilled 'a | Rejected | Unsettled

datatype electron_result =
    ElectronThrows
  | ElectronRejects
  | ElectronResolves "string option option"
  | ElectronNeverSettles

datatype http_result = HttpBody string | HttpFails | HttpTimesOut | HttpCompletesEmpty

record environment =
  isElectron :: bool
  ea_fetchUrlMetadata :: "(string \<Rightarrow> electron_result) option"
  http_get :: "string \<Rightarrow> http_result"

record service_state =
  cache :: "string \<rightharpoonup> string"
  pendingRequests :: "string \<rightharpoonup> string promise"

datatype error = ExternalError | TypeError | EmptyError

text \<open>
  The body of \<open>try\<close> up to the value of \<open>title\<close> (lines 47 to 68).  \<open>Thrown\<close> is an
  exception before anything is awaited, \<open>Awaited\<close> what the awaited promise brings
  (\<open>Inl\<close>: an exception after the \<open>await\<close>), \<open>Never\<close> an \<open>await\<close> that does not return.
  \<open>catchError\<close> stands after \<open>timeout\<close> in the pipe, so a failed request and a timeout
  both give \<open>null\<close> for \<open>html\<close>; \<open>firstValueFrom\<close> rejects when nothing is delivered.
\<close>

datatype 'a attempt = Thrown error | Awaited "error + 'a" | Never

definition fetchBody :: "environment \<Rightarrow> string \<Rightarrow> string option attempt" where
  "fetchBody env url =
     (case (if isElectron env then ea_fetchUrlMetadata env else None) of
        Some fetchUrlMetadata \<Rightarrow>
          (case fetchUrlMetadata url of
             ElectronThrows \<Rightarrow> Thrown ExternalError
           | ElectronRejects \<Rightarrow> Awaited (Inl ExternalError)
           | ElectronResolves None \<Rightarrow> Awaited (Inl TypeError)
           | ElectronResolves (Some title) \<Rightarrow> Awaited (Inr title)
           | ElectronNeverSettles \<Rightarrow> Never)
      | None \<Rightarrow>
          (case http_get env url of
             HttpCompletesEmpty \<Rightarrow> Awaited (Inl EmptyError)
           | HttpFails \<Rightarrow> Awaited (Inr None)
           | HttpTimesOut \<Rightarrow> Awaited (Inr None)
           | HttpBody html \<Rightarrow> Awaited (Inr (if html = [] then None else extractTitle html))))"

text \<open>\<open>title || fallbackTitle\<close>: an absent and an empty title give the fallback.\<close>

definition titleOr :: "string option \<Rightarrow> string \<Rightarrow> string" where
  "titleOr title fallbackTitle =
     (case title of None \<Rightarrow> fallbackTitle | Some t \<Rightarrow> if t = [] then fallbackTitle else t)"

text \<open>
  \<open>fetchTitle\<close>, each call run to its end: what becomes of the promise it returns, and
  the service after it.  The inner function runs up to its first \<open>await\<close> before line 86
  stores its promise in \<open>_pendingRequests\<close>.  When the bridge throws at once, \<open>catch\<close> and
  \<open>finally\<close> have run by then, so the entry that line 86 stores is not deleted any
  more; otherwise \<open>finally\<close> deletes it when the awaited promise has settled, and when
  that never happens the entry stays and nothing is cached.
\<close>

definition fetchTitle ::
    "environment \<Rightarrow> string \<Rightarrow> string \<Rightarrow> service_state \<Rightarrow> string promise \<times> service_state" where
  "fetchTitle env url fallbackTitle st =
     (if startsWith url ''file://'' then (Fulfilled fallbackTitle, st)
      else case cache st url of
        Some cached \<Rightarrow> (Fulfilled cached, st)
      | None \<Rightarrow>
          (case pendingRequests st url of
             Some pending \<Rightarrow> (pending, st)
           | None \<Rightarrow>
               (case fetchBody env url of
                  Thrown e \<Rightarrow>
                    let st1 = st\<lparr>cache := (cache st)(url \<mapsto> fallbackTitle)\<rparr>;
                        st2 = st1\<lparr>pendingRequests := (pendingRequests st1)(url := None)\<rparr>;
                        fetchPromise = Fulfilled fallbackTitle;
                        st3 = st2\<lparr>pendingRequests := (pendingRequests st2)(url \<mapsto> fetchPromise)\<rparr>
                    in (fetchPromise, st3)
                | Awaited r \<Rightarrow>
                    let finalTitle =
                          (case r of Inr title \<Rightarrow> titleOr title fallbackTitle
                                   | Inl e \<Rightarrow> fallbackTitle);
                        fetchPromise = Fulfilled finalTitle;
                        st1 = st\<lparr>pendingRequests := (pendingRequests st)(url \<mapsto> fetchPromise)\<rparr>;
                        st2 = st1\<lparr>cache := (cache st1)(url \<mapsto> finalTitle)\<rparr>;
                        st3 = st2\<lparr>pendingRequests := (pendingRequests st2)(url := None)\<rparr>
                    in (fetchPromise, st3)
                | Never \<Rightarrow>
                    let fetchPromise = Unsettled;
                        st1 = st\<lparr>pendingRequests := (pendingRequests st)(url \<mapsto> fetchPromise)\<rparr>
                    in (fetchPromise, st1))))"

definition clearCache :: "service_state \<Rightarrow> service_state" where
  "clearCache st = st\<lparr>cache := Map.empty\<rparr>"

text \<open>The service as it is created: nothing cached, nothing pending.\<close>

definition new_service :: service_state where
  "new_service = \<lparr>cache = Map.empty, pendingRequests = Map.empty\<rparr>"

text \<open>
  Claim C9, as amended.  For a URL that starts with \<open>file://\<close> the fallback is returned
  at once, whatever the environment is, and the service is left as it was: nothing is
  requested.  For another URL the value cached for it is returned when there is one,
  else the promise pending for it when there is one.  Else the call asks: over HTTP it
  is fulfilled with the title of the body that was delivered, when there is a body
  with a title that is not empty, and with the caller's fallback in every other case;
  over the bridge, when the call of the bridge settles or throws, it is fulfilled with
  the title of the result, when there is one that is not empty, and with the caller's
  fallback in every other case.  The value a call is fulfilled with is the value
  cached for the URL afterwards.  No call rejects, given that no pending promise does,
  and that is kept by every call.
\<close>

theorem fetchTitle_resolves:
  "(startsWith url ''file://'' \<longrightarrow> fetchTitle env url fallbackTitle st = (Fulfilled fallbackTitle, st))
   \<and> (\<not> startsWith url ''file://'' \<and> cache st url = Some cached \<longrightarrow>
        fetchTitle env url fallbackTitle st = (Fulfilled cached, st))
   \<and> (\<not> startsWith url ''file://'' \<and> cache st url = None \<and> pendingRequests st url = Some pending \<longrightarrow>
        fetchTitle env url fallbackTitle st = (pending, st))
   \<and> (\<not> startsWith url ''file://'' \<and> cache st url = None \<and> pendingRequests st url = None \<longrightarrow>
        ((isElectron env \<longrightarrow> ea_fetchUrlMetadata env = None) \<longrightarrow>
           (http_get env url = HttpBody html \<and> html \<noteq> [] \<and> extractTitle html = Some t \<and> t \<noteq> [] \<longrightarrow>
              fst (fetchTitle env url fallbackTitle st) = Fulfilled t)
         \<and> (\<not> (\<exists>html' t'. http_get env url = HttpBody html' \<and> html' \<noteq> []
                    \<and> extractTitle html' = Some t' \<and> t' \<noteq> []) \<longrightarrow>
              fst (fetchTitle env url fallbackTitle st) = Fulfilled fallbackTitle))
      \<and> (isElectron env \<and> ea_fetchUrlMetadata env = Some fetchUrlMetadata \<longrightarrow>
           (fetchUrlMetadata url = ElectronResolves (Some (Some t)) \<and> t \<noteq> [] \<longrightarrow>
              fst (fetchTitle env url fallbackTitle st) = Fulfilled t)
         \<and> (fetchUrlMetadata url \<noteq> ElectronNeverSettles
              \<and> \<not> (\<exists>t'. fetchUrlMetadata url = ElectronResolves (Some (Some t')) \<and> t' \<noteq> []) \<longrightarrow>
              fst (fetchTitle env url fallbackTitle st) = Fulfilled fallbackTitle))
      \<and> (fst (fetchTitle env url fallbackTitle st) = Fulfilled v \<longrightarrow>
           cache (snd (fetchTitle env url fallbackTitle st)) url = Some v))
   \<and> ((\<forall>u. pendingRequests st u \<noteq> Some Rejected) \<longrightarrow>
        fst (fetchTitle env url fallbackTitle st) \<noteq> Rejected
        \<and> (\<forall>u. pendingRequests (snd (fetchTitle env url fallbackTitle st)) u \<noteq> Some Rejected))"
proof -
  have f1: "startsWith url ''file://'' \<longrightarrow>
      fetchTitle env url fallbackTitle st = (Fulfilled fallbackTitle, st)"
    by (simp add: fetchTitle_def)
  have f2: "\<not> startsWith url ''file://'' \<and> cache st url = Some cached \<longrightarrow>
      fetchTitle env url fallbackTitle st = (Fulfilled cached, st)"
    by (simp add: fetchTitle_def)
  have f3: "\<not> startsWith url ''file://'' \<and> cache st url = None
      \<and> pendingRequests st url = Some pending \<longrightarrow>
      fetchTitle env url fallbackTitle st = (pending, st)"
    by (simp add: fetchTitle_def)
  have f4: "(http_get env url = HttpBody html \<and> html \<noteq> [] \<and> extractTitle html = Some t \<and> t \<noteq> [] \<longrightarrow>
              fst (fetchTitle env url fallbackTitle st) = Fulfilled t)
         \<and> (\<not> (\<exists>html' t'. http_get env url = HttpBody html' \<and> html' \<noteq> []
                    \<and> extractTitle html' = Some t' \<and> t' \<noteq> []) \<longrightarrow>
              fst (fetchTitle env url fallbackTitle st) = Fulfilled fallbackTitle)"
    if "\<not> startsWith url ''file://''" "cache st url = None" "pendingRequests st url = None"
      "isElectron env \<longrightarrow> ea_fetchUrlMetadata env = None"
  proof -
    from that(4) have b: "(if isElectron env then ea_fetchUrlMetadata env else None) = None"
      by simp
    show ?thesis
      using that(1-3)
      by (cases "http_get env url")
         (auto simp: fetchTitle_def fetchBody_def b titleOr_def Let_def split: option.splits)
  qed
  have f5: "(fetchUrlMetadata url = ElectronResolves (Some (Some t)) \<and> t \<noteq> [] \<longrightarrow>
              fst (fetchTitle env url fallbackTitle st) = Fulfilled t)
         \<and> (fetchUrlMetadata url \<noteq> ElectronNeverSettles
              \<and> \<not> (\<exists>t'. fetchUrlMetadata url = ElectronResolves (Some (Some t')) \<and> t' \<noteq> []) \<longrightarrow>
              fst (fetchTitle env url fallbackTitle st) = Fulfilled fallbackTitle)"
    if "\<not> startsWith url ''file://''" "cache st url = None" "pendingRequests st url = None"
      "isElectron env" "ea_fetchUrlMetadata env = Some fetchUrlMetadata"
    using that
    by (cases "fetchUrlMetadata url")
       (auto simp: fetchTitle_def fetchBody_def titleOr_def Let_def split: option.splits)
  have f6: "fst (fetchTitle env url fallbackTitle st) = Fulfilled v \<longrightarrow>
           cache (snd (fetchTitle env url fallbackTitle st)) url = Some v"
    if "\<not> startsWith url ''file://''" "cache st url = None" "pendingRequests st url = None"
    using that by (cases "fetchBody env url") (auto simp: fetchTitle_def Let_def)
  have f7: "(\<forall>u. pendingRequests st u \<noteq> Some Rejected) \<longrightarrow>
        fst (fetchTitle env url fallbackTitle st) \<noteq> Rejected
        \<and> (\<forall>u. pendingRequests (snd (fetchTitle env url fallbackTitle st)) u \<noteq> Some Rejected)"
    by (cases "fetchBody env url")
       (auto simp: fetchTitle_def Let_def split: option.splits)
  from f1 f2 f3 f4 f5 f6 f7 show ?thesis by blast
qed

theorem fetchTitle_resolves_witness:
  "fetchTitle \<lparr>isElectron = False, ea_fetchUrlMetadata = None, http_get = (\<lambda>u. HttpFails)\<rparr>
      ''file:///tmp/a.html'' ''a.html'' new_service = (Fulfilled ''a.html'', new_service)
   \<and> fst (fetchTitle \<lparr>isElectron = False, ea_fetchUrlMetadata = None,
                       http_get = (\<lambda>u. HttpBody ''<title>T</title>'')\<rparr>
             ''http://a.com'' ''a.com'' new_service) = Fulfilled ''T''
   \<and> fst (fetchTitle \<lparr>isElectron = False, ea_fetchUrlMetadata = None, http_get = (\<lambda>u. HttpTimesOut)\<rparr>
             ''http://a.com'' ''a.com'' new_service) = Fulfilled ''a.com''
   \<and> fst (fetchTitle \<lparr>isElectron = True, ea_fetchUrlMetadata = Some (\<lambda>u. ElectronThrows),
                       http_get = (\<lambda>u. HttpFails)\<rparr>
             ''http://a.com'' ''a.com'' new_service) = Fulfilled ''a.com''
   \<and> fst (fetchTitle \<lparr>isElectron = True, ea_fetchUrlMetadata = Some (\<lambda>u. ElectronNeverSettles),
                       http_get = (\<lambda>u. HttpFails)\<rparr>
             ''http://a.com'' ''a.com'' new_service) \<noteq> Rejected"
proof -
  have e: "extractTitle ''<title>T</title>'' = Some ''T''" by code_simp
  have n: "\<not> startsWith ''http://a.com'' ''file://''" "startsWith ''file:///tmp/a.html'' ''file://''"
    "cache new_service ''http://a.com'' = None" "pendingRequests new_service ''http://a.com'' = None"
    "\<forall>u. pendingRequests new_service u \<noteq> Some Rejected"
    by (simp_all add: new_service_def)
  have 1: "fetchTitle \<lparr>isElectron = False, ea_fetchUrlMetadata = None, http_get = (\<lambda>u. HttpFails)\<rparr>
      ''file:///tmp/a.html'' ''a.html'' new_service = (Fulfilled ''a.html'', new_service)"
    using fetchTitle_resolves
      [where url = "''file:///tmp/a.html''" and fallbackTitle = "''a.html''" and st = new_service
         and env = "\<lparr>isElectron = False, ea_fetchUrlMetadata = None, http_get = (\<lambda>u. HttpFails)\<rparr>"]
      n(2) by blast
  have 2: "fst (fetchTitle \<lparr>isElectron = False, ea_fetchUrlMetadata = None,
                       http_get = (\<lambda>u. HttpBody ''<title>T</title>'')\<rparr>
             ''http://a.com'' ''a.com'' new_service) = Fulfilled ''T''"
    using fetchTitle_resolves
      [where url = "''http://a.com''" and fallbackTitle = "''a.com''" and st = new_service
         and html = "''<title>T</title>''" and t = "''T''"
         and env = "\<lparr>isElectron = False, ea_fetchUrlMetadata = None,
                       http_get = (\<lambda>u. HttpBody ''<title>T</title>'')\<rparr>"]
      n(1,3,4) e by simp
  have 3: "fst (fetchTitle \<lparr>isElectron = False, ea_fetchUrlMetadata = None, http_get = (\<lambda>u. HttpTimesOut)\<rparr>
             ''http://a.com'' ''a.com'' new_service) = Fulfilled ''a.com''"
    using fetchTitle_resolves
      [where url = "''http://a.com''" and fallbackTitle = "''a.com''" and st = new_service
         and env = "\<lparr>isElectron = False, ea_fetchUrlMetadata = None, http_get = (\<lambda>u. HttpTimesOut)\<rparr>"]
      n(1,3,4) by simp
  have 4: "fst (fetchTitle \<lparr>isElectron = True, ea_fetchUrlMetadata = Some (\<lambda>u. ElectronThrows),
                       http_get = (\<lambda>u. HttpFails)\<rparr>
             ''http://a.com'' ''a.com'' new_service) = Fulfilled ''a.com''"
    using fetchTitle_resolves
      [where url = "''http://a.com''" and fallbackTitle = "''a.com''" and st = new_service
         and fetchUrlMetadata = "\<lambda>u. ElectronThrows"
         and env = "\<lparr>isElectron = True, ea_fetchUrlMetadata = Some (\<lambda>u. ElectronThrows),
                       http_get = (\<lambda>u. HttpFails)\<rparr>"]
      n(1,3,4) by simp
  have 5: "fst (fetchTitle \<lparr>isElectron = True, ea_fetchUrlMetadata = Some (\<lambda>u. ElectronNeverSettles),
                       http_get = (\<lambda>u. HttpFails)\<rparr>
             ''http://a.com'' ''a.com'' new_service) \<noteq> Rejected"
    using fetchTitle_resolves
      [where url = "''http://a.com''" and fallbackTitle = "''a.com''" and st = new_service
         and env = "\<lparr>isElectron = True, ea_fetchUrlMetadata = Some (\<lambda>u. ElectronNeverSettles),
                       http_get = (\<lambda>u. HttpFails)\<rparr>"]
      n(5) by blast
  from 1 2 3 4 5 show ?thesis by (intro conjI)
qed

text \<open>
  Claim C9 as stated fails: the fallback of a failed call is cached.  A later call for
  the same URL with another fallback gets the earlier caller's fallback, which is
  neither the title of the document (\<open>T\<close>) nor its own fallback.
\<close>

theorem fetchTitle_cached_fallback_counterexample:
  "fst (fetchTitle \<lparr>isElectron = False, ea_fetchUrlMetadata = None,
                    http_get = (\<lambda>u. HttpBody ''<title>T</title>'')\<rparr>
          ''http://a.com'' ''B''
          (snd (fetchTitle \<lparr>isElectron = False, ea_fetchUrlMetadata = None,
                            http_get = (\<lambda>u. HttpFails)\<rparr>
                  ''http://a.com'' ''A'' new_service)))
     = Fulfilled ''A''
   \<and> extractTitle ''<title>T</title>'' = Some ''T''"
  by code_simp

text \<open>
  What the amended claim leaves open: the bridge has no timeout, and a call whose
  bridge promise never settles never settles itself; and after the bridge has thrown
  at once, the entry of the call stays in \<open>_pendingRequests\<close>.
\<close>

lemma fetchTitle_bridge_never_settles:
  "fetchTitle \<lparr>isElectron = True, ea_fetchUrlMetadata = Some (\<lambda>u. ElectronNeverSettles),
               http_get = (\<lambda>u. HttpFails)\<rparr> ''http://a.com'' ''a.com'' new_service
     = (Unsettled, new_service\<lparr>pendingRequests := [''http://a.com'' \<mapsto> Unsettled]\<rparr>)"
  by (simp add: fetchTitle_def fetchBody_def new_service_def Let_def)

lemma fetchTitle_bridge_throws_stale_entry:
  "pendingRequests
     (snd (fetchTitle \<lparr>isElectron = True, ea_fetchUrlMetadata = Some (\<lambda>u. ElectronThrows),
                       http_get = (\<lambda>u. HttpFails)\<rparr> ''http://a.com'' ''a.com'' new_service))
     ''http://a.com'' = Some (Fulfilled ''a.com'')"
  by (simp add: fetchTitle_def fetchBody_def new_service_def Let_def)

end
